theory Spec2Isabelle
  imports Main
begin

section \<open>The Engine viewer of rpe-app (Engine.js)\<close>

text \<open>
  The component \<open>Engine\<close> owns a piece of React state (\<open>hovered\<close>), the
  values of the GUI panel (\<open>config\<close>, written through the panel's \<open>set\<close>), and a
  one-shot flag (\<open>reset.current\<close>). It renders the sixty meshes of the model as six named
  \<open>Select\<close> groups inside one outer \<open>Select\<close> group. The model below follows the
  source function by function.
\<close>

subsection \<open>The GUI panel values\<close>

text \<open>
  The object passed to \<open>useControls\<close>: six part check boxes (in the folder
  \<open>parts\<close>), \<open>all\<close> and \<open>autoRotate\<close>, every one initially \<open>false\<close>. The entry
  \<open>reset\<close> is a button and holds no value; its callback is \<open>reset\<close> below.
\<close>

record config =
  gear :: bool
  shaft :: bool
  cylinder :: bool
  piston1 :: bool
  piston2 :: bool
  piston3 :: bool
  all :: bool
  autoRotate :: bool

definition config0 :: config where
  "config0 = \<lparr>gear = False, shaft = False, cylinder = False, piston1 = False,
              piston2 = False, piston3 = False, all = False, autoRotate = False\<rparr>"

subsection \<open>pton: check or uncheck a part from the outside\<close>

text \<open>
  \<open>pton(part, stat = true)\<close> is a \<open>switch\<close> on the part name with strict equality.
  The argument is a JavaScript string or \<open>null\<close> (\<open>None\<close>); each \<open>set({field: stat})\<close>
  is an update of that one field of the panel values. The default branch runs the six
  updates one after the other. The default value \<open>true\<close> of \<open>stat\<close> is passed by the
  caller \<open>onDoubleClick\<close> below.
\<close>

definition pton :: "string option \<Rightarrow> bool \<Rightarrow> config \<Rightarrow> config" where
  "pton part stat c =
     (if part = Some ''gear'' then c\<lparr>gear := stat\<rparr>
      else if part = Some ''shaft'' then c\<lparr>shaft := stat\<rparr>
      else if part = Some ''cylinder'' then c\<lparr>cylinder := stat\<rparr>
      else if part = Some ''piston1'' then c\<lparr>piston1 := stat\<rparr>
      else if part = Some ''piston2'' then c\<lparr>piston2 := stat\<rparr>
      else if part = Some ''piston3'' then c\<lparr>piston3 := stat\<rparr>
      else c\<lparr>gear := stat\<rparr>\<lparr>shaft := stat\<rparr>\<lparr>cylinder := stat\<rparr>
            \<lparr>piston1 := stat\<rparr>\<lparr>piston2 := stat\<rparr>\<lparr>piston3 := stat\<rparr>)"

subsection \<open>The rendered tree\<close>

text \<open>
  What \<open>Engine\<close> returns, below the root group: a \<open>mesh\<close> with its number, or a
  \<open>Select\<close> group with its \<open>name\<close>, its \<open>enabled\<close> flag and its children. A
  \<open>Select\<close> without a \<open>name\<close> attribute has the empty name of a new three.js object.
\<close>

datatype node = Mesh nat | Select string bool "node list"

text \<open>
  \<open>Parts({name, config, arr})\<close>: one \<open>Select\<close> named \<open>name\<close>, enabled when
  \<open>hovered === name || config\<close>, holding one \<open>Mesh\<close> for each number of \<open>arr\<close>. The
  variable \<open>hovered\<close> of the enclosing component is the first argument.
\<close>

definition Parts :: "string option \<Rightarrow> string \<Rightarrow> bool \<Rightarrow> nat list \<Rightarrow> node" where
  "Parts hovered name cfg arr = Select name (hovered = Some name \<or> cfg) (map Mesh arr)"

text \<open>
  The six \<open>Parts\<close> elements of the source, in its order: the name, the panel value
  that is passed as \<open>config\<close>, and the array of mesh numbers.
\<close>

definition part_table :: "(string \<times> (config \<Rightarrow> bool) \<times> nat list) list" where
  "part_table =
     [(''gear'', gear, [0, 1, 2, 3, 4, 5, 6, 7, 8, 9, 10, 13]),
      (''shaft'', shaft, [29, 30, 31, 32, 33]),
      (''cylinder'', cylinder, [11, 12, 14, 19, 34, 39, 47, 52]),
      (''piston1'', piston1, [15, 16, 17, 18, 20, 21, 22, 23, 24, 25, 26, 27, 28]),
      (''piston2'', piston2, [35, 36, 37, 38, 40, 41, 42, 43, 44, 45, 46]),
      (''piston3'', piston3, [48, 49, 50, 51, 53, 54, 55, 56, 57, 58, 59])]"

definition part_arr :: "string \<Rightarrow> nat list option" where
  "part_arr name = map_of (map (\<lambda>(n, f, arr). (n, arr)) part_table) name"

definition all_indices :: "nat list" where
  "all_indices = concat (map (\<lambda>(n, f, arr). arr) part_table)"

text \<open>
  The tree under the root group: the outer \<open>Select\<close>, enabled by \<open>config.all\<close>, around
  the six \<open>Parts\<close>.
\<close>

definition Engine_render :: "string option \<Rightarrow> config \<Rightarrow> node" where
  "Engine_render hovered c =
     Select [] (all c) (map (\<lambda>(n, f, arr). Parts hovered n (f c) arr) part_table)"

subsection \<open>Reading the rendered tree\<close>

primrec first_some :: "'a option list \<Rightarrow> 'a option" where
  "first_some [] = None"
| "first_some (x # xs) = (case x of Some v \<Rightarrow> Some v | None \<Rightarrow> first_some xs)"

text \<open>The \<open>enabled\<close> attribute of the \<open>Select\<close> group with a given name.\<close>

fun select_enabled :: "node \<Rightarrow> string \<Rightarrow> bool option" where
  "select_enabled (Mesh k) nm = None"
| "select_enabled (Select n en cs) nm =
     (if n = nm then Some en else first_some (map (\<lambda>c. select_enabled c nm) cs))"

text \<open>
  \<open>e.object.parent.name\<close> for the mesh with number \<open>i\<close>: the name of the group
  whose child the mesh is.
\<close>

fun parent_name :: "node \<Rightarrow> nat \<Rightarrow> string option" where
  "parent_name (Mesh k) i = None"
| "parent_name (Select n en cs) i =
     (if Mesh i \<in> set cs then Some n else first_some (map (\<lambda>c. parent_name c i) cs))"

text \<open>The meshes below a node, as the traversal of the object meets them.\<close>

fun meshes :: "node \<Rightarrow> nat list" where
  "meshes (Mesh k) = [k]"
| "meshes (Select n en cs) = concat (map meshes cs)"

text \<open>
  Modelled from the spec: the component \<open>Select\<close> of the outline library and the outline
  effect it feeds are not among the sources. By the spec the state drives which named group
  is enabled for outline highlighting, the highlight is the outline applied to a part's
  meshes, and the select-all flag of the outer group overrides the individual highlights.
  So every enabled \<open>Select\<close> contributes all the meshes below it, and a mesh is
  highlighted when some group around it is enabled.
\<close>

fun selection :: "node \<Rightarrow> nat list" where
  "selection (Mesh k) = []"
| "selection (Select n en cs) =
     (if en then concat (map meshes cs) else []) @ concat (map selection cs)"

definition highlighted :: "node \<Rightarrow> nat \<Rightarrow> bool" where
  "highlighted t i = (i \<in> set (selection t))"

subsection \<open>The state of the component\<close>

type_synonym 'a vec3 = "'a \<times> 'a \<times> 'a"

text \<open>
  The root group (\<open>group.current\<close>): its \<open>position\<close>, and everything else of the
  object (rotation, scale, the geometry below it) in \<open>other\<close>. Coordinates are kept
  abstract; only negation and the constants 0 and 1 are used on them.
\<close>

record ('a, 'g) object3d =
  position :: "'a vec3"
  other :: 'g

text \<open>
  \<open>hovered\<close> is the React state (a name or \<open>null\<close>), \<open>config\<close> the panel values,
  \<open>reset_current\<close> the ref \<open>reset.current\<close>, \<open>controls\<close> the camera controls
  \<open>state.controls\<close> and \<open>camera_up\<close> the vector \<open>state.camera.up\<close>.
\<close>

record ('a, 'g, 'c) engine =
  hovered :: "string option"
  config :: config
  group_current :: "('a, 'g) object3d"
  reset_current :: bool
  controls :: 'c
  camera_up :: "'a vec3"

definition render :: "('a, 'g, 'c) engine \<Rightarrow> node" where
  "render st = Engine_render (hovered st) (config st)"

subsection \<open>The pointer handlers of the root group\<close>

definition setHover :: "string option \<Rightarrow> ('a, 'g, 'c) engine \<Rightarrow> ('a, 'g, 'c) engine" where
  "setHover h st = st\<lparr>hovered := h\<rparr>"

text \<open>
  \<open>onDoubleClick\<close>: \<open>part = e.object.parent.name\<close>, then \<open>setHover(part)\<close> and
  \<open>pton(part)\<close>, with \<open>stat\<close> at its default \<open>true\<close>. The argument is the name read
  from the event.
\<close>

definition onDoubleClick :: "string \<Rightarrow> ('a, 'g, 'c) engine \<Rightarrow> ('a, 'g, 'c) engine" where
  "onDoubleClick part st =
     (let st1 = setHover (Some part) st
      in st1\<lparr>config := pton (Some part) True (config st1)\<rparr>)"

text \<open>\<open>onPointerOut\<close>: \<open>setHover(null)\<close>, then \<open>pton(null, false)\<close>.\<close>

definition onPointerOut :: "('a, 'g, 'c) engine \<Rightarrow> ('a, 'g, 'c) engine" where
  "onPointerOut st =
     (let st1 = setHover None st
      in st1\<lparr>config := pton None False (config st1)\<rparr>)"

text \<open>
  A double click on the mesh with number \<open>i\<close>: the event's object is that mesh, so the
  handler receives the name of the group that holds it in the rendered tree. There is no
  such event for a number that is not rendered.
\<close>

definition doubleClick_mesh :: "nat \<Rightarrow> ('a, 'g, 'c) engine \<Rightarrow> ('a, 'g, 'c) engine option" where
  "doubleClick_mesh i st =
     (case parent_name (render st) i of
        None \<Rightarrow> None
      | Some part \<Rightarrow> Some (onDoubleClick part st))"

subsection \<open>The reset button\<close>

text \<open>\<open>Vector3.negate\<close>: each coordinate is negated.\<close>

definition negate :: "'a::uminus vec3 \<Rightarrow> 'a vec3" where
  "negate v = (case v of (x, y, z) \<Rightarrow> (- x, - y, - z))"

text \<open>
  The callback of the button \<open>reset\<close>. The three.js computations are parameters:
  \<open>box_center g\<close> is the centre of \<open>new Box3().setFromObject(g)\<close>, and
  \<open>controls_reset\<close> is the method \<open>reset\<close> of the camera controls. When the flag is
  not yet set, the position of the root group becomes the negated centre and the flag is
  set; in every call the controls are then reset and the camera's up vector becomes
  \<open>(0, 1, 0)\<close>. The application mounts its orbit controls as the default controls
  before the component is rendered, so \<open>state.controls\<close> is an object here.
\<close>

definition reset ::
  "(('a::{uminus,zero,one}, 'g) object3d \<Rightarrow> 'a vec3) \<Rightarrow> ('c \<Rightarrow> 'c) \<Rightarrow>
   ('a, 'g, 'c) engine \<Rightarrow> ('a, 'g, 'c) engine" where
  "reset box_center controls_reset st =
     (let st1 =
        (if \<not> reset_current st
         then st\<lparr>group_current :=
                   (group_current st)\<lparr>position := negate (box_center (group_current st))\<rparr>,
                 reset_current := True\<rparr>
         else st)
      in st1\<lparr>controls := controls_reset (controls st1), camera_up := (0, 1, 0)\<rparr>)"

text \<open>
  The state in which the component starts: nothing hovered, nothing checked, the flag
  unset. For the examples below the coordinates are integers, the group sits at the
  origin, the controls are the camera position they hold (moved away from the saved
  position \<open>(0, 0, 200)\<close>), and the camera has been tilted.
\<close>

definition engine0 :: "(int, unit, int vec3) engine" where
  "engine0 = \<lparr>hovered = None, config = config0,
              group_current = \<lparr>position = (0, 0, 0), other = ()\<rparr>,
              reset_current = False, controls = (30, 40, 50), camera_up = (0, 0, 1)\<rparr>"

section \<open>The part table\<close>

lemma all_indices_eq: "all_indices =
    [0, 1, 2, 3, 4, 5, 6, 7, 8, 9, 10, 13, 29, 30, 31, 32, 33,
     11, 12, 14, 19, 34, 39, 47, 52,
     15, 16, 17, 18, 20, 21, 22, 23, 24, 25, 26, 27, 28,
     35, 36, 37, 38, 40, 41, 42, 43, 44, 45, 46,
     48, 49, 50, 51, 53, 54, 55, 56, 57, 58, 59]"
  by (simp add: all_indices_def part_table_def)

lemma set_all_indices: "set all_indices = {0..59}"
proof (rule set_eqI)
  fix i :: nat
  show "i \<in> set all_indices \<longleftrightarrow> i \<in> {0..59}"
    unfolding all_indices_eq
    by (simp only: set_simps insert_iff empty_iff atLeastAtMost_iff) arith
qed


text \<open>
  Claim C1. Each of the six part names is mapped by the part table to its fixed array of
  mesh numbers; the arrays of two different parts share no number; and together the six
  arrays hold exactly the numbers 0 to 59, each of them once.
\<close>

theorem part_table_partitions_meshes:
  "part_arr ''gear'' = Some [0, 1, 2, 3, 4, 5, 6, 7, 8, 9, 10, 13] \<and>
   part_arr ''shaft'' = Some [29, 30, 31, 32, 33] \<and>
   part_arr ''cylinder'' = Some [11, 12, 14, 19, 34, 39, 47, 52] \<and>
   part_arr ''piston1'' = Some [15, 16, 17, 18, 20, 21, 22, 23, 24, 25, 26, 27, 28] \<and>
   part_arr ''piston2'' = Some [35, 36, 37, 38, 40, 41, 42, 43, 44, 45, 46] \<and>
   part_arr ''piston3'' = Some [48, 49, 50, 51, 53, 54, 55, 56, 57, 58, 59] \<and>
   map fst part_table =
     [''gear'', ''shaft'', ''cylinder'', ''piston1'', ''piston2'', ''piston3''] \<and>
   (\<forall>p \<in> set part_table. \<forall>q \<in> set part_table.
      fst p \<noteq> fst q \<longrightarrow> set (snd (snd p)) \<inter> set (snd (snd q)) = {}) \<and>
   distinct all_indices \<and>
   set all_indices = {0..59}"
proof -
  have arrs: "part_arr ''gear'' = Some [0, 1, 2, 3, 4, 5, 6, 7, 8, 9, 10, 13]"
    "part_arr ''shaft'' = Some [29, 30, 31, 32, 33]"
    "part_arr ''cylinder'' = Some [11, 12, 14, 19, 34, 39, 47, 52]"
    "part_arr ''piston1'' = Some [15, 16, 17, 18, 20, 21, 22, 23, 24, 25, 26, 27, 28]"
    "part_arr ''piston2'' = Some [35, 36, 37, 38, 40, 41, 42, 43, 44, 45, 46]"
    "part_arr ''piston3'' = Some [48, 49, 50, 51, 53, 54, 55, 56, 57, 58, 59]"
    by (simp_all add: part_arr_def part_table_def)
  have names: "map fst part_table =
      [''gear'', ''shaft'', ''cylinder'', ''piston1'', ''piston2'', ''piston3'']"
    by (simp add: part_table_def)
  have dist: "distinct all_indices"
    unfolding all_indices_eq by simp
  have disj: "\<forall>p \<in> set part_table. \<forall>q \<in> set part_table.
      fst p \<noteq> fst q \<longrightarrow> set (snd (snd p)) \<inter> set (snd (snd q)) = {}"
    by (simp add: part_table_def)
  from arrs names disj dist set_all_indices show ?thesis by blast
qed

theorem part_table_partitions_meshes_witness:
  "(''gear'', gear, [0, 1, 2, 3, 4, 5, 6, 7, 8, 9, 10, 13]) \<in> set part_table \<and>
   (''shaft'', shaft, [29, 30, 31, 32, 33]) \<in> set part_table \<and>
   ''gear'' \<noteq> ''shaft'' \<and>
   set [0, 1, 2, 3, 4, 5, 6, 7, 8, 9, 10, 13] \<inter> set [29, 30, 31, 32, 33] = ({} :: nat set)"
proof -
  have g: "(''gear'', gear, [0, 1, 2, 3, 4, 5, 6, 7, 8, 9, 10, 13]) \<in> set part_table"
    by (simp add: part_table_def)
  have s: "(''shaft'', shaft, [29, 30, 31, 32, 33]) \<in> set part_table"
    by (simp add: part_table_def)
  from part_table_partitions_meshes
  have "\<forall>p \<in> set part_table. \<forall>q \<in> set part_table.
      fst p \<noteq> fst q \<longrightarrow> set (snd (snd p)) \<inter> set (snd (snd q)) = {}"
    by blast
  from bspec [OF bspec [OF this g] s] g s show ?thesis by simp
qed


section \<open>Highlight of a part\<close>

lemma Engine_render_eq:
  "Engine_render h c =
     Select [] (all c)
       [Parts h ''gear'' (gear c) [0, 1, 2, 3, 4, 5, 6, 7, 8, 9, 10, 13],
        Parts h ''shaft'' (shaft c) [29, 30, 31, 32, 33],
        Parts h ''cylinder'' (cylinder c) [11, 12, 14, 19, 34, 39, 47, 52],
        Parts h ''piston1'' (piston1 c) [15, 16, 17, 18, 20, 21, 22, 23, 24, 25, 26, 27, 28],
        Parts h ''piston2'' (piston2 c) [35, 36, 37, 38, 40, 41, 42, 43, 44, 45, 46],
        Parts h ''piston3'' (piston3 c) [48, 49, 50, 51, 53, 54, 55, 56, 57, 58, 59]]"
  by (simp add: Engine_render_def part_table_def)

lemma select_enabled_Parts:
  "select_enabled (Parts h n cfg arr) nm = (if n = nm then Some (h = Some n \<or> cfg) else None)"
proof -
  have "first_some (map (\<lambda>c. select_enabled c nm) (map Mesh xs)) = None" for xs
    by (induction xs) simp_all
  then show ?thesis by (simp add: Parts_def)
qed

text \<open>
  Claim C2. Whatever is hovered and whatever is checked, the \<open>enabled\<close> flag of the
  \<open>Select\<close> group of each of the six parts is true exactly when \<open>hovered\<close> is the name
  of that part or the check box of that part is checked.
\<close>

theorem part_enabled_iff_hovered_or_checked:
  "select_enabled (Engine_render h c) ''gear'' = Some (h = Some ''gear'' \<or> gear c) \<and>
   select_enabled (Engine_render h c) ''shaft'' = Some (h = Some ''shaft'' \<or> shaft c) \<and>
   select_enabled (Engine_render h c) ''cylinder'' = Some (h = Some ''cylinder'' \<or> cylinder c) \<and>
   select_enabled (Engine_render h c) ''piston1'' = Some (h = Some ''piston1'' \<or> piston1 c) \<and>
   select_enabled (Engine_render h c) ''piston2'' = Some (h = Some ''piston2'' \<or> piston2 c) \<and>
   select_enabled (Engine_render h c) ''piston3'' = Some (h = Some ''piston3'' \<or> piston3 c)"
  unfolding Engine_render_eq by (simp add: select_enabled_Parts)

section \<open>Leaving the object\<close>

lemma pton_null: "pton None stat c =
    c\<lparr>gear := stat, shaft := stat, cylinder := stat,
      piston1 := stat, piston2 := stat, piston3 := stat\<rparr>"
  by (simp add: pton_def)

text \<open>
  Claim C10. From every state, after the pointer has left the object nothing is hovered and
  all six part check boxes are unchecked, not only the one of the part that was hovered.
\<close>

theorem onPointerOut_clears_all:
  "hovered (onPointerOut st) = None \<and>
   gear (config (onPointerOut st)) = False \<and>
   shaft (config (onPointerOut st)) = False \<and>
   cylinder (config (onPointerOut st)) = False \<and>
   piston1 (config (onPointerOut st)) = False \<and>
   piston2 (config (onPointerOut st)) = False \<and>
   piston3 (config (onPointerOut st)) = False"
  by (simp add: onPointerOut_def setHover_def pton_null)

text \<open>
  Claim C3, as the specification states it, does not hold: with the gear checked and
  hovered, the pointer leaving the object unchecks the gear.
\<close>

theorem onPointerOut_keeps_checked_counterexample:
  "gear (config (engine0\<lparr>hovered := Some ''gear'', config := config0\<lparr>gear := True\<rparr>\<rparr>)) \<and>
   hovered (engine0\<lparr>hovered := Some ''gear'', config := config0\<lparr>gear := True\<rparr>\<rparr>)
     = Some ''gear'' \<and>
   gear (config (onPointerOut
     (engine0\<lparr>hovered := Some ''gear'', config := config0\<lparr>gear := True\<rparr>\<rparr>)))
     \<noteq> gear (config (engine0\<lparr>hovered := Some ''gear'', config := config0\<lparr>gear := True\<rparr>\<rparr>))"
  by (simp add: onPointerOut_def setHover_def pton_null engine0_def config0_def)

text \<open>
  Claim C3, amended. For each of the six parts, from a state where the part is checked and
  hovered, the pointer leaving the object leaves the part unchecked and nothing hovered:
  the handler calls \<open>pton(null, false)\<close> after \<open>setHover(null)\<close>. The update of
  \<open>hovered\<close> alone changes no panel value, and the handler leaves \<open>all\<close> and
  \<open>autoRotate\<close> as they were.
\<close>

theorem onPointerOut_unchecks_hovered_part:
  assumes "(n, f, arr) \<in> set part_table"
    and "f (config st)"
    and "hovered st = Some n"
  shows "f (config (onPointerOut st)) = False \<and>
         hovered (onPointerOut st) = None \<and>
         config (setHover None st) = config st \<and>
         all (config (onPointerOut st)) = all (config st) \<and>
         autoRotate (config (onPointerOut st)) = autoRotate (config st)"
  using assms
  by (auto simp add: part_table_def onPointerOut_def setHover_def pton_null)

theorem onPointerOut_unchecks_hovered_part_witness:
  "(''shaft'', shaft, [29, 30, 31, 32, 33]) \<in> set part_table \<and>
   shaft (config (engine0\<lparr>hovered := Some ''shaft'', config := config0\<lparr>shaft := True\<rparr>\<rparr>)) \<and>
   hovered (engine0\<lparr>hovered := Some ''shaft'', config := config0\<lparr>shaft := True\<rparr>\<rparr>)
     = Some ''shaft'' \<and>
   shaft (config (onPointerOut
     (engine0\<lparr>hovered := Some ''shaft'', config := config0\<lparr>shaft := True\<rparr>\<rparr>))) = False"
proof -
  let ?st = "engine0\<lparr>hovered := Some ''shaft'', config := config0\<lparr>shaft := True\<rparr>\<rparr>"
  have m: "(''shaft'', shaft, [29, 30, 31, 32, 33]) \<in> set part_table"
    by (simp add: part_table_def)
  have c: "shaft (config ?st)" by simp
  have h: "hovered ?st = Some ''shaft''" by simp
  from onPointerOut_unchecks_hovered_part [OF m c h] m c h show ?thesis by blast
qed


section \<open>The selection of the rendered tree\<close>

lemma meshes_Parts: "meshes (Parts h n cfg arr) = arr"
proof -
  have "concat (map (meshes \<circ> Mesh) xs) = xs" for xs
    by (induction xs) simp_all
  then show ?thesis by (simp add: Parts_def)
qed

lemma selection_Parts:
  "selection (Parts h n cfg arr) = (if h = Some n \<or> cfg then arr else [])"
proof -
  have m: "concat (map (meshes \<circ> Mesh) xs) = xs" for xs
    by (induction xs) simp_all
  have s: "concat (map (selection \<circ> Mesh) xs) = []" for xs
    by (induction xs) simp_all
  show ?thesis by (simp add: Parts_def m s)
qed

lemma selection_Engine_render:
  "selection (Engine_render h c) =
     (if all c then all_indices else []) @
     concat (map (\<lambda>(n, f, arr). if h = Some n \<or> f c then arr else []) part_table)"
proof -
  have m: "concat (map meshes (map (\<lambda>(n, f, arr). Parts h n (f c) arr) ps)) =
           concat (map (\<lambda>(n, f, arr). arr) ps)" for ps
    by (induction ps) (auto simp add: meshes_Parts)
  have s: "concat (map selection (map (\<lambda>(n, f, arr). Parts h n (f c) arr) ps)) =
           concat (map (\<lambda>(n, f, arr). if h = Some n \<or> f c then arr else []) ps)" for ps
    by (induction ps) (auto simp add: selection_Parts)
  show ?thesis
    by (simp only: Engine_render_def selection.simps m s all_indices_def)
qed

lemma parts_selection_subset:
  "set (concat (map (\<lambda>(n, f, arr). if h = Some n \<or> f c then arr else []) ps))
     \<subseteq> set (concat (map (\<lambda>(n, f, arr). arr) ps))"
  by (induction ps) auto

section \<open>pton on a name that is not a part\<close>

text \<open>
  Claim C4. For every argument that is none of the six part names, \<open>null\<close> included,
  \<open>pton\<close> takes its default branch and sets each of the six check boxes to the given
  status. Called with status \<open>true\<close> it therefore selects the whole assembly: the
  highlighted meshes are those of all six arrays.
\<close>

theorem pton_unknown_sets_all:
  assumes "part \<notin> {Some ''gear'', Some ''shaft'', Some ''cylinder'',
                    Some ''piston1'', Some ''piston2'', Some ''piston3''}"
  shows "pton part stat c =
           c\<lparr>gear := stat, shaft := stat, cylinder := stat,
             piston1 := stat, piston2 := stat, piston3 := stat\<rparr> \<and>
         set (selection (Engine_render h (pton part True c))) = set all_indices"
proof -
  have p: "pton part s c =
           c\<lparr>gear := s, shaft := s, cylinder := s,
             piston1 := s, piston2 := s, piston3 := s\<rparr>" for s
    using assms by (simp add: pton_def)
  have "concat (map (\<lambda>(n, f, arr). if h = Some n \<or> f (pton part True c) then arr else [])
          part_table) = all_indices"
    by (simp add: p part_table_def all_indices_def)
  then have "set (selection (Engine_render h (pton part True c))) = set all_indices"
    by (auto simp add: selection_Engine_render)
  with p show ?thesis by simp
qed

theorem pton_unknown_sets_all_witness:
  "Some ''crank'' \<notin> {Some ''gear'', Some ''shaft'', Some ''cylinder'',
                      Some ''piston1'', Some ''piston2'', Some ''piston3''} \<and>
   pton (Some ''crank'') True config0 =
     \<lparr>gear = True, shaft = True, cylinder = True, piston1 = True,
      piston2 = True, piston3 = True, all = False, autoRotate = False\<rparr> \<and>
   set (selection (Engine_render None (pton (Some ''crank'') True config0))) = set all_indices"
proof -
  have a: "Some ''crank'' \<notin> {Some ''gear'', Some ''shaft'', Some ''cylinder'',
                      Some ''piston1'', Some ''piston2'', Some ''piston3''}"
    by simp
  have e: "config0\<lparr>gear := True, shaft := True, cylinder := True,
             piston1 := True, piston2 := True, piston3 := True\<rparr> =
           \<lparr>gear = True, shaft = True, cylinder = True, piston1 = True,
            piston2 = True, piston3 = True, all = False, autoRotate = False\<rparr>"
    by (simp add: config0_def)
  from pton_unknown_sets_all [OF a, where stat = True and c = config0 and h = None]
  have "pton (Some ''crank'') True config0 =
          \<lparr>gear = True, shaft = True, cylinder = True, piston1 = True,
           piston2 = True, piston3 = True, all = False, autoRotate = False\<rparr> \<and>
        set (selection (Engine_render None (pton (Some ''crank'') True config0)))
          = set all_indices"
    unfolding e .
  with a show ?thesis by blast
qed



section \<open>Highlighted meshes\<close>

text \<open>
  Claim C8. With \<open>hovered\<close> equal to \<open>"shaft"\<close>, no part checked and the select-all flag
  off, the highlighted meshes are exactly those with the numbers 29, 30, 31, 32 and 33.
\<close>

theorem shaft_hovered_highlights_its_meshes:
  assumes "h = Some ''shaft''"
    and "\<not> gear c" and "\<not> shaft c" and "\<not> cylinder c"
    and "\<not> piston1 c" and "\<not> piston2 c" and "\<not> piston3 c"
    and "\<not> all c"
  shows "highlighted (Engine_render h c) i \<longleftrightarrow> i \<in> {29, 30, 31, 32, 33}"
  using assms
  by (simp add: highlighted_def selection_Engine_render part_table_def)

theorem shaft_hovered_highlights_its_meshes_witness:
  "\<not> gear config0 \<and> \<not> shaft config0 \<and> \<not> cylinder config0 \<and>
   \<not> piston1 config0 \<and> \<not> piston2 config0 \<and> \<not> piston3 config0 \<and> \<not> all config0 \<and>
   highlighted (Engine_render (Some ''shaft'') config0) 31 \<and>
   \<not> highlighted (Engine_render (Some ''shaft'') config0) 34"
proof -
  have f: "\<not> gear config0" "\<not> shaft config0" "\<not> cylinder config0"
    "\<not> piston1 config0" "\<not> piston2 config0" "\<not> piston3 config0" "\<not> all config0"
    by (simp_all add: config0_def)
  have "highlighted (Engine_render (Some ''shaft'') config0) 31"
    using shaft_hovered_highlights_its_meshes [OF refl f, of 31] by simp
  moreover have "\<not> highlighted (Engine_render (Some ''shaft'') config0) 34"
    using shaft_hovered_highlights_its_meshes [OF refl f, of 34] by simp
  ultimately show ?thesis using f by blast
qed

text \<open>
  Claim C9. Whatever is hovered and whichever parts are checked, when the select-all flag
  is on every mesh number of the part table is highlighted (and nothing else is).
\<close>

theorem all_flag_highlights_every_mesh:
  assumes "all c"
  shows "(\<forall>i \<in> set all_indices. highlighted (Engine_render h c) i) \<and>
         set (selection (Engine_render h c)) = {0..59}"
proof -
  have "set (selection (Engine_render h c)) = set all_indices"
    using assms parts_selection_subset [of h c part_table]
    by (auto simp add: selection_Engine_render all_indices_def)
  then show ?thesis
    by (simp add: highlighted_def set_all_indices)
qed

theorem all_flag_highlights_every_mesh_witness:
  "all (config0\<lparr>all := True\<rparr>) \<and> 47 \<in> set all_indices \<and>
   highlighted (Engine_render None (config0\<lparr>all := True\<rparr>)) 47"
proof -
  have a: "all (config0\<lparr>all := True\<rparr>)" by simp
  have m: "47 \<in> set all_indices" by (simp add: all_indices_eq)
  from all_flag_highlights_every_mesh [OF a, of None] m a show ?thesis by blast
qed

section \<open>Double click on a mesh\<close>

lemma parent_name_Parts:
  "parent_name (Parts h n cfg arr) i = (if i \<in> set arr then Some n else None)"
proof -
  have "first_some (map ((\<lambda>c. parent_name c i) \<circ> Mesh) xs) = None" for xs
    by (induction xs) simp_all
  then show ?thesis by (auto simp add: Parts_def)
qed

lemma Mesh_not_Parts: "Mesh i \<notin> set (map (\<lambda>(n, f, arr). Parts h n (f c) arr) ps)"
    by (induction ps) (auto simp add: Parts_def)

lemma parent_name_Engine_render: "parent_name (Engine_render h c) i =
      first_some (map (\<lambda>(n, f, arr). parent_name (Parts h n (f c) arr) i) part_table)"
  using Mesh_not_Parts [of i h c part_table]
  by (simp add: Engine_render_def comp_def case_prod_unfold)

lemma first_some_owner:
  "distinct (concat (map (\<lambda>(n, f, arr). arr) ps)) \<Longrightarrow> (n, f, arr) \<in> set ps \<Longrightarrow> i \<in> set arr \<Longrightarrow>
   first_some (map (\<lambda>(n, f, arr). if i \<in> set arr then Some n else None) ps) = Some n"
proof (induction ps)
  case Nil
  then show ?case by simp
next
  case (Cons p ps)
  obtain n' f' arr' where p: "p = (n', f', arr')" by (cases p) auto
  show ?case
  proof (cases "i \<in> set arr'")
    case True
    have "(n, f, arr) \<notin> set ps"
    proof
      assume "(n, f, arr) \<in> set ps"
      with Cons.prems(3) have "i \<in> set (concat (map (\<lambda>(n, f, arr). arr) ps))"
        by force
      moreover from Cons.prems(1) p
      have "set arr' \<inter> set (concat (map (\<lambda>(n, f, arr). arr) ps)) = {}"
        by (simp del: set_concat)
      ultimately show False using True by blast
    qed
    with Cons.prems(2) p True show ?thesis by simp
  next
    case False
    with Cons.prems p have "(n, f, arr) \<in> set ps" by auto
    with Cons p False show ?thesis by simp
  qed
qed

lemma parent_name_render:
  assumes "(n, f, arr) \<in> set part_table" and "i \<in> set arr"
  shows "parent_name (Engine_render h c) i = Some n"
proof -
  have "distinct (concat (map (\<lambda>(n, f, arr). arr) part_table))"
    using all_indices_eq [unfolded all_indices_def] by simp
  from first_some_owner [OF this assms] show ?thesis
    by (simp add: parent_name_Engine_render parent_name_Parts)
qed

text \<open>
  Claim C5. For every mesh of one of the six parts, a double click on the mesh sets
  \<open>hovered\<close> to the name of the part that owns the mesh and checks the check box of that
  part.
\<close>

theorem doubleClick_selects_owning_part:
  assumes "(n, f, arr) \<in> set part_table" and "i \<in> set arr"
  shows "\<exists>st'. doubleClick_mesh i st = Some st' \<and> hovered st' = Some n \<and> f (config st')"
proof -
  have "doubleClick_mesh i st = Some (onDoubleClick n st)"
    by (simp add: doubleClick_mesh_def render_def parent_name_render [OF assms])
  moreover have "hovered (onDoubleClick n st) = Some n"
    by (simp add: onDoubleClick_def setHover_def)
  moreover have "f (config (onDoubleClick n st))"
    using assms(1) by (auto simp add: part_table_def onDoubleClick_def setHover_def pton_def)
  ultimately show ?thesis by blast
qed

theorem doubleClick_selects_owning_part_witness:
  "(''piston2'', piston2, [35, 36, 37, 38, 40, 41, 42, 43, 44, 45, 46]) \<in> set part_table \<and>
   (41::nat) \<in> set [35, 36, 37, 38, 40, 41, 42, 43, 44, 45, 46] \<and>
   (\<exists>st'. doubleClick_mesh 41 engine0 = Some st' \<and>
          hovered st' = Some ''piston2'' \<and> piston2 (config st'))"
proof -
  have m: "(''piston2'', piston2, [35, 36, 37, 38, 40, 41, 42, 43, 44, 45, 46])
      \<in> set part_table"
    by (simp add: part_table_def)
  have i: "(41::nat) \<in> set [35, 36, 37, 38, 40, 41, 42, 43, 44, 45, 46]" by simp
  from doubleClick_selects_owning_part [OF m i, of engine0] m i show ?thesis by blast
qed

section \<open>Resetting the pivot\<close>

text \<open>
  Claim C6. Pressing the reset button twice in a row leaves the root group after the second
  call exactly as it was after the first: the first call sets the flag, and with the flag
  set the position of the group is not computed again.
\<close>

theorem reset_twice_same_group:
  "group_current (reset box_center controls_reset (reset box_center controls_reset st)) =
     group_current (reset box_center controls_reset st) \<and>
   reset_current (reset box_center controls_reset st)"
  by (simp add: reset_def Let_def)

text \<open>
  Claim C7. On the first press of the reset button (the flag not yet set) the position of
  the root group becomes the negated centre of the bounding box of the group, the rest of
  the group is untouched, the camera controls are reset and the camera's up vector is
  \<open>(0, 1, 0)\<close>.
\<close>

theorem reset_first_recentres:
  assumes "\<not> reset_current st"
  shows "position (group_current (reset box_center controls_reset st)) =
           negate (box_center (group_current st)) \<and>
         other (group_current (reset box_center controls_reset st)) = other (group_current st) \<and>
         reset_current (reset box_center controls_reset st) \<and>
         controls (reset box_center controls_reset st) = controls_reset (controls st) \<and>
         camera_up (reset box_center controls_reset st) = (0, 1, 0)"
  using assms by (simp add: reset_def Let_def)

theorem reset_first_recentres_witness:
  "\<not> reset_current engine0 \<and>
   position (group_current (reset (\<lambda>g. (4, 6, - 10)) (\<lambda>c. (0, 0, 200)) engine0))
     = (- 4, - 6, 10) \<and>
   controls engine0 = (30, 40, 50) \<and>
   controls (reset (\<lambda>g. (4, 6, - 10)) (\<lambda>c. (0, 0, 200)) engine0) = (0, 0, 200) \<and>
   camera_up engine0 = (0, 0, 1) \<and>
   camera_up (reset (\<lambda>g. (4, 6, - 10)) (\<lambda>c. (0, 0, 200)) engine0) = (0, 1, 0)"
proof -
  have a: "\<not> reset_current engine0" by (simp add: engine0_def)
  have u: "camera_up engine0 = (0, 0, 1)" "controls engine0 = (30, 40, 50)"
    by (simp_all add: engine0_def)
  from reset_first_recentres [OF a, of "\<lambda>g. (4, 6, - 10)" "\<lambda>c. (0, 0, 200)"] a u
  show ?thesis by (simp add: negate_def)
qed

end
